theory Spec2Isabelle
  imports Main "HOL-Library.AList"
begin

section \<open>JavaScript values\<close>

text \<open>
  The values of \<^verbatim>\<open>performance_optimizations.js\<close> that may be \<^verbatim>\<open>undefined\<close> or
  \<^verbatim>\<open>null\<close>, or are tested for truthiness: DOM properties such as \<^verbatim>\<open>node.id\<close> and
  \<^verbatim>\<open>node.value\<close>, the values kept in the private store, and the key returned by
  \<^verbatim>\<open>getNodeKey\<close>. Strict equality \<^verbatim>\<open>===\<close> on these values is equality of the datatype.
\<close>

datatype jsval = JUndefined | JNull | JBool bool | JStr string

fun truthy :: "jsval \<Rightarrow> bool" where
  "truthy JUndefined = False"
| "truthy JNull = False"
| "truthy (JBool b) = b"
| "truthy (JStr s) = (s \<noteq> [])"

text \<open>\<^verbatim>\<open>a && b\<close> and \<^verbatim>\<open>a || b\<close> return one of their operands.\<close>

definition js_and :: "jsval \<Rightarrow> jsval \<Rightarrow> jsval" where
  "js_and a b = (if truthy a then b else a)"

definition js_or :: "jsval \<Rightarrow> jsval \<Rightarrow> jsval" where
  "js_or a b = (if truthy a then a else b)"

text \<open>The string a value becomes in a concatenation or a template literal.\<close>

fun toString :: "jsval \<Rightarrow> string" where
  "toString JUndefined = ''undefined''"
| "toString JNull = ''null''"
| "toString (JBool b) = (if b then ''true'' else ''false'')"
| "toString (JStr s) = s"

text \<open>\<^verbatim>\<open>name.startsWith(prefix)\<close>\<close>

definition startsWith :: "string \<Rightarrow> string \<Rightarrow> bool" where
  "startsWith s p = (take (length p) s = p)"

text \<open>\<^verbatim>\<open>xs[i]\<close> on an array or an HTMLCollection: \<^verbatim>\<open>undefined\<close> out of range.\<close>

definition at_index :: "'a list \<Rightarrow> int \<Rightarrow> 'a option" where
  "at_index xs i = (if 0 \<le> i \<and> i < int (length xs) then Some (xs ! nat i) else None)"

text \<open>\<^verbatim>\<open>Array.prototype.indexOf.call(xs, x)\<close>: the first index of \<open>x\<close>, or \<open>-1\<close>.\<close>

fun indexOf :: "'a list \<Rightarrow> 'a \<Rightarrow> int" where
  "indexOf [] x = -1"
| "indexOf (y # ys) x =
     (if y = x then 0 else (let i = indexOf ys x in if i < 0 then -1 else i + 1))"

datatype exn = TypeError | SyntaxError | NotFoundError

section \<open>ObjectPool\<close>

text \<open>
  \<^verbatim>\<open>class ObjectPool\<close> (lines 92 to 112). The pooled objects are references \<open>'r\<close>; the
  factory \<^verbatim>\<open>createFn\<close> and the optional \<^verbatim>\<open>resetFn\<close> are the caller's code and act on
  the caller's state \<open>'w\<close> (the heap holding the objects): \<^verbatim>\<open>createFn()\<close> returns a
  reference and the state after the construction, \<^verbatim>\<open>resetFn(obj)\<close> the state after the
  reset. \<^verbatim>\<open>this.pool\<close> is an array used as a stack: \<^verbatim>\<open>push\<close> adds at the end and
  \<^verbatim>\<open>pop\<close> takes from the end.
\<close>

record ('r, 'w) ObjectPool =
  createFn :: "'w \<Rightarrow> 'r \<times> 'w"
  resetFn :: "('r \<Rightarrow> 'w \<Rightarrow> 'w) option"
  pool :: "'r list"

definition ObjectPool_new ::
  "('w \<Rightarrow> 'r \<times> 'w) \<Rightarrow> ('r \<Rightarrow> 'w \<Rightarrow> 'w) option \<Rightarrow> ('r, 'w) ObjectPool" where
  "ObjectPool_new cf rf = \<lparr>createFn = cf, resetFn = rf, pool = []\<rparr>"

definition ObjectPool_get ::
  "('r, 'w) ObjectPool \<Rightarrow> 'w \<Rightarrow> 'r \<times> ('r, 'w) ObjectPool \<times> 'w" where
  "ObjectPool_get p w =
     (if length (pool p) > 0 then (last (pool p), p\<lparr>pool := butlast (pool p)\<rparr>, w)
      else (fst (createFn p w), p, snd (createFn p w)))"

definition ObjectPool_release ::
  "('r, 'w) ObjectPool \<Rightarrow> 'r \<Rightarrow> 'w \<Rightarrow> ('r, 'w) ObjectPool \<times> 'w" where
  "ObjectPool_release p obj w =
     (let w' = (case resetFn p of Some rf \<Rightarrow> rf obj w | None \<Rightarrow> w)
      in (p\<lparr>pool := pool p @ [obj]\<rparr>, w'))"

text \<open>
  \<^verbatim>\<open>arrayPool\<close> (lines 115 to 118): arrays live in a heap from references to contents;
  the factory allocates the next reference with an empty array, the reset empties the
  array (\<^verbatim>\<open>arr.length = 0\<close>).
\<close>

record 'a array_heap =
  cells :: "nat \<Rightarrow> 'a list"
  next_ref :: nat

definition arrayPool :: "(nat, 'a array_heap) ObjectPool" where
  "arrayPool = ObjectPool_new
     (\<lambda>h. (next_ref h, h\<lparr>cells := (cells h)(next_ref h := []), next_ref := Suc (next_ref h)\<rparr>))
     (Some (\<lambda>arr h. h\<lparr>cells := (cells h)(arr := [])\<rparr>))"

section \<open>The element tree and optimizedStreamReorder\<close>

text \<open>
  The part of the DOM that \<^verbatim>\<open>optimizedStreamReorder\<close> reads and writes: for every node
  its element children in order (\<^verbatim>\<open>container.children\<close>) and its parent element
  (\<^verbatim>\<open>item.parentElement\<close>, \<open>None\<close> for \<^verbatim>\<open>null\<close>). Text nodes between the elements do not
  change the order of the elements and are left out.
\<close>

record 'n dom =
  children :: "'n \<Rightarrow> 'n list"
  parentElement :: "'n \<Rightarrow> 'n option"

text \<open>Removing a node from its parent, the first step of every DOM insertion of a node
  that is already in the tree.\<close>

definition detach :: "'n dom \<Rightarrow> 'n \<Rightarrow> 'n dom" where
  "detach d node =
     (case parentElement d node of
        None \<Rightarrow> d
      | Some p \<Rightarrow> d\<lparr>children := (children d)(p := removeAll node (children d p)),
                     parentElement := (parentElement d)(node := None)\<rparr>)"

fun insert_before_in :: "'n \<Rightarrow> 'n \<Rightarrow> 'n list \<Rightarrow> 'n list" where
  "insert_before_in node r [] = []"
| "insert_before_in node r (c # cs) =
     (if c = r then node # c # cs else c # insert_before_in node r cs)"

text \<open>\<^verbatim>\<open>parent.appendChild(node)\<close>: the node leaves its old place and becomes the last
  child.\<close>

definition appendChild :: "'n dom \<Rightarrow> 'n \<Rightarrow> 'n \<Rightarrow> exn + 'n dom" where
  "appendChild d parent node =
     (let d1 = detach d node
      in Inr (d1\<lparr>children := (children d1)(parent := children d1 parent @ [node]),
                 parentElement := (parentElement d1)(node := Some parent)\<rparr>))"

text \<open>
  \<^verbatim>\<open>parent.insertBefore(node, child)\<close>: with \<^verbatim>\<open>child\<close> null or undefined it appends; a
  \<^verbatim>\<open>child\<close> that is not a child of \<^verbatim>\<open>parent\<close> raises NotFoundError; with
  \<^verbatim>\<open>child === node\<close> the node stays where it is; otherwise the node leaves its old place
  and is put immediately before \<^verbatim>\<open>child\<close>. The DOM's check that \<^verbatim>\<open>node\<close> does not
  contain \<^verbatim>\<open>parent\<close> is not modelled.
\<close>

definition insertBefore :: "'n dom \<Rightarrow> 'n \<Rightarrow> 'n \<Rightarrow> 'n option \<Rightarrow> exn + 'n dom" where
  "insertBefore d parent node child =
     (case child of
        None \<Rightarrow> appendChild d parent node
      | Some r \<Rightarrow>
          if r \<notin> set (children d parent) then Inl NotFoundError
          else if r = node then Inr d
          else (let d1 = detach d node
                in Inr (d1\<lparr>children := (children d1)(parent := insert_before_in node r (children d1 parent)),
                           parentElement := (parentElement d1)(node := Some parent)\<rparr>)))"

text \<open>\<^verbatim>\<open>sibling.nextElementSibling\<close> for a child \<^verbatim>\<open>sibling\<close> of the container whose
  children are \<open>cs\<close>: the element after it, \<open>None\<close> (null) for the last one.\<close>

fun nextElementSibling :: "'n list \<Rightarrow> 'n \<Rightarrow> 'n option" where
  "nextElementSibling [] s = None"
| "nextElementSibling [c] s = None"
| "nextElementSibling (c # c' # cs) s =
     (if c = s then Some c' else nextElementSibling (c' # cs) s)"

text \<open>
  \<^verbatim>\<open>optimizedStreamReorder(container, item, streamAt)\<close> (lines 121 to 147). All reads of
  the live collection \<^verbatim>\<open>children\<close> happen before the single insertion, so \<open>cs\<close> is the
  child list at entry. Reading \<^verbatim>\<open>nextElementSibling\<close> of \<^verbatim>\<open>undefined\<close> raises TypeError.
\<close>

definition optimizedStreamReorder :: "'n dom \<Rightarrow> 'n \<Rightarrow> 'n \<Rightarrow> int \<Rightarrow> exn + 'n dom" where
  "optimizedStreamReorder d container item streamAt =
     (if parentElement d item = None then Inr d
      else
        (let cs = children d container in
         if streamAt = 0 then
           (if at_index cs 0 \<noteq> Some item then insertBefore d container item (at_index cs 0)
            else Inr d)
         else if streamAt > 0 then
           (let targetIndex = min streamAt (int (length cs) - 1);
                currentIndex = indexOf cs item
            in if currentIndex \<noteq> targetIndex then
                 (if targetIndex \<ge> int (length cs) - 1 then appendChild d container item
                  else
                    (case at_index cs targetIndex of
                       None \<Rightarrow> (if currentIndex > targetIndex
                                 then insertBefore d container item None
                                 else Inl TypeError)
                     | Some sibling \<Rightarrow>
                         if currentIndex > targetIndex
                         then insertBefore d container item (Some sibling)
                         else insertBefore d container item (nextElementSibling cs sibling)))
               else Inr d)
         else Inr d))"


section \<open>Elements and optimizedMergeAttrs\<close>

text \<open>
  An element as the functions of this file see it: its identity \<open>ref\<close> (the object
  itself, the key of the WeakMap), its tag name, its attributes in document order
  (\<^verbatim>\<open>el.attributes\<close>, each a name and a value, the names unique on a real element), and
  its \<^verbatim>\<open>value\<close> property (a string on form controls, \<^verbatim>\<open>undefined\<close> on an element
  that has no such property). The property is not the \<^verbatim>\<open>value\<close> attribute: on an
  input the user has edited the two differ.
\<close>

record 'r element =
  ref :: 'r
  tagName :: string
  attributes :: "(string \<times> string) list"
  value_prop :: jsval

text \<open>\<^verbatim>\<open>el.getAttribute(name)\<close>, \<open>None\<close> for \<^verbatim>\<open>null\<close>.\<close>

definition getAttribute :: "'r element \<Rightarrow> string \<Rightarrow> string option" where
  "getAttribute el name = map_of (attributes el) name"

definition hasAttribute :: "'r element \<Rightarrow> string \<Rightarrow> bool" where
  "hasAttribute el name = (name \<in> fst ` set (attributes el))"

text \<open>\<^verbatim>\<open>el.setAttribute(name, value)\<close> replaces the value of an attribute the element
  has and adds a new attribute at the end otherwise.\<close>

definition setAttribute :: "'r element \<Rightarrow> string \<Rightarrow> string \<Rightarrow> 'r element" where
  "setAttribute el name v = el\<lparr>attributes := AList.update name v (attributes el)\<rparr>"

definition removeAttribute :: "'r element \<Rightarrow> string \<Rightarrow> 'r element" where
  "removeAttribute el name = el\<lparr>attributes := AList.delete name (attributes el)\<rparr>"

text \<open>
  \<^verbatim>\<open>PHX_REF\<close> and \<^verbatim>\<open>PHX_REF_SRC\<close> are imported from \<^verbatim>\<open>./constants\<close>, which is not
  among the sources: the two names are parameters of the model.
\<close>

record constants =
  PHX_REF :: string
  PHX_REF_SRC :: string

text \<open>\<^verbatim>\<open>opts\<close>: \<^verbatim>\<open>opts.exclude || []\<close> as a list of names (membership is all the
  \<^verbatim>\<open>Set\<close> is used for), and the truthiness of \<^verbatim>\<open>opts.isIgnored\<close>.\<close>

record mergeOpts =
  exclude :: "string list"
  isIgnored :: bool

text \<open>
  First pass (lines 55 to 69), over the attributes of the source in order: what
  \<^verbatim>\<open>attributesToSet\<close> holds at the end. \<^verbatim>\<open>target.getAttribute(name) !== sourceValue\<close>
  compares null or a string with a string.
\<close>

fun collectSets ::
  "'r element \<Rightarrow> 'r element \<Rightarrow> mergeOpts \<Rightarrow> (string \<times> string) list \<Rightarrow> (string \<times> string) list" where
  "collectSets target source opts [] = []"
| "collectSets target source opts ((name, sourceValue) # sourceAttrs) =
     (if name \<notin> set (exclude opts) then
        (if getAttribute target name \<noteq> Some sourceValue
            \<and> (\<not> isIgnored opts \<or> (isIgnored opts \<and> startsWith name ''data-''))
         then [(name, sourceValue)] else [])
      else if name = ''value'' \<and> value_prop target = value_prop source
        then [(name, sourceValue)] else [])
     @ collectSets target source opts sourceAttrs"

text \<open>Second pass (lines 71 to 84), over the attributes of the target in order: what
  \<^verbatim>\<open>attributesToRemove\<close> holds at the end.\<close>

fun collectRemoves ::
  "constants \<Rightarrow> 'r element \<Rightarrow> mergeOpts \<Rightarrow> (string \<times> string) list \<Rightarrow> string list" where
  "collectRemoves c source opts [] = []"
| "collectRemoves c source opts ((name, v) # targetAttrs) =
     (if isIgnored opts then
        (if startsWith name ''data-'' \<and> \<not> hasAttribute source name
            \<and> name \<notin> set [PHX_REF c, PHX_REF_SRC c]
         then [name] else [])
      else
        (if \<not> hasAttribute source name then [name] else []))
     @ collectRemoves c source opts targetAttrs"

text \<open>The two batches of writes that a call records: the set operations and the remove
  operations, in the order they are applied.\<close>

definition mergeOps ::
  "constants \<Rightarrow> 'r element \<Rightarrow> 'r element \<Rightarrow> mergeOpts \<Rightarrow> (string \<times> string) list \<times> string list" where
  "mergeOps c target source opts =
     (collectSets target source opts (attributes source),
      collectRemoves c source opts (attributes target))"

text \<open>
  \<^verbatim>\<open>optimizedMergeAttrs(target, source, opts)\<close> (lines 47 to 89): both passes read the
  target before any write, then the recorded sets are applied in order and after them
  the recorded removals. The result is the target with its attributes after the call.
  What the DOM does to the \<^verbatim>\<open>value\<close> property of a control when its attributes are
  written is not modelled: the field is the property as the call read it.
\<close>

definition optimizedMergeAttrs ::
  "constants \<Rightarrow> 'r element \<Rightarrow> 'r element \<Rightarrow> mergeOpts \<Rightarrow> 'r element" where
  "optimizedMergeAttrs c target source opts =
     (let attributesToSet = fst (mergeOps c target source opts);
          attributesToRemove = snd (mergeOps c target source opts);
          target1 = fold (\<lambda>(name, v) t. setAttribute t name v) attributesToSet target
      in fold (\<lambda>name t. removeAttribute t name) attributesToRemove target1)"

text \<open>
  The full-sync postcondition in the specification's words: after a merge with
  \<^verbatim>\<open>ignoreFiltered = false\<close> a name is on the target, with the source's value, exactly
  when it is on the source and not excluded or under the value exception, and every
  other name is absent. \<open>spec_full_sync_attr\<close> is the attribute \<open>n\<close> of the target after
  the merge according to that sentence.
\<close>

definition spec_full_sync_attr ::
  "'r element \<Rightarrow> 'r element \<Rightarrow> mergeOpts \<Rightarrow> string \<Rightarrow> string option" where
  "spec_full_sync_attr target source opts n =
     (if hasAttribute source n
         \<and> (n \<notin> set (exclude opts) \<or> (n = ''value'' \<and> value_prop target = value_prop source))
      then getAttribute source n else None)"

text \<open>Values for the two imported names and elements for the examples.\<close>

definition example_constants :: constants where
  "example_constants = \<lparr>PHX_REF = ''data-phx-ref'', PHX_REF_SRC = ''data-phx-ref-src''\<rparr>"

definition div_element :: "nat \<Rightarrow> (string \<times> string) list \<Rightarrow> nat element" where
  "div_element r attrs = \<lparr>ref = r, tagName = ''DIV'', attributes = attrs, value_prop = JUndefined\<rparr>"

definition input_element :: "nat \<Rightarrow> (string \<times> string) list \<Rightarrow> string \<Rightarrow> nat element" where
  "input_element r attrs v = \<lparr>ref = r, tagName = ''INPUT'', attributes = attrs, value_prop = JStr v\<rparr>"

section \<open>Nodes\<close>

text \<open>
  A node is an element or another node (a document, a text node): of the latter,
  \<^verbatim>\<open>id\<close>, \<^verbatim>\<open>tagName\<close>, \<^verbatim>\<open>className\<close> and \<^verbatim>\<open>getAttribute\<close> are \<^verbatim>\<open>undefined\<close>. On an HTML
  element \<^verbatim>\<open>id\<close> and \<^verbatim>\<open>className\<close> reflect the attributes \<^verbatim>\<open>id\<close> and \<^verbatim>\<open>class\<close>: the
  attribute's value, or the empty string when the attribute is absent.
\<close>

datatype 'r node = Element "'r element" | OtherNode 'r

fun node_ref :: "'r node \<Rightarrow> 'r" where
  "node_ref (Element e) = ref e"
| "node_ref (OtherNode r) = r"

definition reflected :: "'r element \<Rightarrow> string \<Rightarrow> string" where
  "reflected e name = (case getAttribute e name of Some v \<Rightarrow> v | None \<Rightarrow> [])"

fun node_id :: "'r node \<Rightarrow> jsval" where
  "node_id (Element e) = JStr (reflected e ''id'')"
| "node_id (OtherNode r) = JUndefined"

fun node_tagName :: "'r node \<Rightarrow> jsval" where
  "node_tagName (Element e) = JStr (tagName e)"
| "node_tagName (OtherNode r) = JUndefined"

fun node_className :: "'r node \<Rightarrow> jsval" where
  "node_className (Element e) = JStr (reflected e ''class'')"
| "node_className (OtherNode r) = JUndefined"

text \<open>\<^verbatim>\<open>node.getAttribute && node.getAttribute(name)\<close>\<close>

fun node_getAttribute_guarded :: "'r node \<Rightarrow> string \<Rightarrow> jsval" where
  "node_getAttribute_guarded (Element e) name =
     (case getAttribute e name of Some v \<Rightarrow> JStr v | None \<Rightarrow> JNull)"
| "node_getAttribute_guarded (OtherNode r) name = JUndefined"

section \<open>The query cache and optimizedDOMAll\<close>

text \<open>
  \<^verbatim>\<open>queryCache\<close> is a \<^verbatim>\<open>Map\<close> from the cache key to an entry: an association list in
  insertion order with unique keys. \<^verbatim>\<open>get\<close> is \<open>map_of\<close>, \<^verbatim>\<open>set\<close> replaces the value
  of a key in place or adds the key at the end (\<open>AList.update\<close>), \<^verbatim>\<open>delete\<close> is
  \<open>AList.delete\<close>, \<^verbatim>\<open>size\<close> is the length. Times are the integer milliseconds of
  \<^verbatim>\<open>Date.now()\<close>.
\<close>

record 'e cacheEntry =
  results :: "'e list"
  timestamp :: int

type_synonym 'e queryCache = "(string \<times> 'e cacheEntry) list"

definition CACHE_TTL :: int where
  "CACHE_TTL = 100"

text \<open>What the successive calls of \<^verbatim>\<open>Date.now()\<close> in one call of \<^verbatim>\<open>optimizedDOMAll\<close>
  return: on line 22 (the check of the cached entry), on line 30 (the timestamp of the
  new entry) and on line 35 (the sweep).\<close>

record clock =
  at_check :: int
  at_store :: int
  at_sweep :: int

text \<open>What the call returns: the array itself, or, with a callback, the value of
  \<^verbatim>\<open>array.forEach(callback)\<close>, which is \<^verbatim>\<open>undefined\<close> after the callback has been
  called on each element in order.\<close>

datatype 'e all_result = Returned "'e list" | ForEach_undefined "'e list"

definition deliver :: "bool \<Rightarrow> 'e list \<Rightarrow> 'e all_result" where
  "deliver callback array = (if callback then ForEach_undefined array else Returned array)"

text \<open>Lines 17 and 18: \<^verbatim>\<open>node.id || node.tagName + (node.className || '')\<close>, then the
  template literal.\<close>

definition cacheKey :: "'r node \<Rightarrow> string \<Rightarrow> string" where
  "cacheKey node query =
     (let nodeId = js_or (node_id node)
                     (JStr (toString (node_tagName node)
                            @ toString (js_or (node_className node) (JStr ''''))))
      in toString nodeId @ '':'' @ query)"

text \<open>Lines 34 to 41: the loop over the entries deletes each entry whose age at \<open>now\<close>
  is greater than the TTL.\<close>

definition sweep :: "int \<Rightarrow> 'e queryCache \<Rightarrow> 'e queryCache" where
  "sweep now queryCache =
     fold (\<lambda>(key, entry) m. if now - timestamp entry > CACHE_TTL then AList.delete key m else m)
       queryCache queryCache"

text \<open>Lines 26 to 43: the query on the live tree (\<^verbatim>\<open>node.querySelectorAll\<close>, a
  parameter: it raises on a malformed selector), the new entry, and the sweep when the
  table has more than 100 entries.\<close>

definition performQuery ::
  "('r node \<Rightarrow> string \<Rightarrow> exn + 'e list) \<Rightarrow> clock \<Rightarrow> 'e queryCache \<Rightarrow> 'r node \<Rightarrow> string \<Rightarrow> bool
     \<Rightarrow> exn + ('e all_result \<times> 'e queryCache)" where
  "performQuery querySelectorAll now queryCache node query callback =
     (case querySelectorAll node query of
        Inl e \<Rightarrow> Inl e
      | Inr array \<Rightarrow>
          (let cache1 = AList.update (cacheKey node query)
                          \<lparr>results = array, timestamp = at_store now\<rparr> queryCache;
               cache2 = (if length cache1 > 100 then sweep (at_sweep now) cache1 else cache1)
           in Inr (deliver callback array, cache2)))"

text \<open>\<^verbatim>\<open>optimizedDOMAll(node, query, callback)\<close> (lines 13 to 44); \<open>None\<close> is a null or
  undefined node, \<open>callback\<close> says whether a callback is given. The result is the value
  returned and the cache after the call.\<close>

definition optimizedDOMAll ::
  "('r node \<Rightarrow> string \<Rightarrow> exn + 'e list) \<Rightarrow> clock \<Rightarrow> 'e queryCache \<Rightarrow> 'r node option \<Rightarrow> string \<Rightarrow> bool
     \<Rightarrow> exn + ('e all_result \<times> 'e queryCache)" where
  "optimizedDOMAll querySelectorAll now queryCache node query callback =
     (case node of
        None \<Rightarrow> Inr (Returned [], queryCache)
      | Some nd \<Rightarrow>
          (case map_of queryCache (cacheKey nd query) of
             Some cached \<Rightarrow>
               if at_check now - timestamp cached < CACHE_TTL
               then Inr (deliver callback (results cached), queryCache)
               else performQuery querySelectorAll now queryCache nd query callback
           | None \<Rightarrow> performQuery querySelectorAll now queryCache nd query callback))"

section \<open>The private store and the morphdom configuration\<close>

text \<open>\<^verbatim>\<open>optimizedPrivateStore\<close> is a WeakMap from an element to an object of keys and
  values (lines 165 to 186).\<close>

type_synonym 'r privateStore = "'r \<Rightarrow> (string \<Rightarrow> jsval option) option"

definition optimizedPutPrivate :: "'r privateStore \<Rightarrow> 'r node \<Rightarrow> string \<Rightarrow> jsval \<Rightarrow> 'r privateStore" where
  "optimizedPutPrivate store el key v =
     (case store (node_ref el) of
        None \<Rightarrow> store(node_ref el := Some (Map.empty(key := Some v)))
      | Some privateObj \<Rightarrow> store(node_ref el := Some (privateObj(key := Some v))))"

definition optimizedGetPrivate :: "'r privateStore \<Rightarrow> 'r node \<Rightarrow> string \<Rightarrow> jsval" where
  "optimizedGetPrivate store el key =
     (case store (node_ref el) of
        None \<Rightarrow> JUndefined
      | Some privateObj \<Rightarrow> (case privateObj key of None \<Rightarrow> JUndefined | Some v \<Rightarrow> v))"

definition optimizedDeletePrivate :: "'r privateStore \<Rightarrow> 'r node \<Rightarrow> string \<Rightarrow> 'r privateStore" where
  "optimizedDeletePrivate store el key =
     (case store (node_ref el) of
        None \<Rightarrow> store
      | Some privateObj \<Rightarrow> store(node_ref el := Some (privateObj(key := None))))"

text \<open>\<^verbatim>\<open>getOptimizedMorphdomConfig(targetContainer, isJoinPatch)\<close> (lines 202 to 220): the
  two closures and the configuration object.\<close>

definition isPhxDestroyed :: "'r privateStore \<Rightarrow> 'r node \<Rightarrow> jsval" where
  "isPhxDestroyed store node = js_and (node_id node) (optimizedGetPrivate store node ''destroyed'')"

definition getNodeKey :: "'r privateStore \<Rightarrow> bool \<Rightarrow> 'r node \<Rightarrow> jsval" where
  "getNodeKey store isJoinPatch node =
     (if truthy (isPhxDestroyed store node) then JNull
      else if isJoinPatch then node_id node
      else js_or (node_id node) (node_getAttribute_guarded node ''phx-magic-id''))"

record 'r morphdomConfig =
  childrenOnly :: bool
  config_getNodeKey :: "'r node \<Rightarrow> jsval"
  skipFromChildren :: "'r element \<Rightarrow> bool"

definition getOptimizedMorphdomConfig ::
  "'r privateStore \<Rightarrow> 'r element \<Rightarrow> bool \<Rightarrow> 'r morphdomConfig" where
  "getOptimizedMorphdomConfig store targetContainer isJoinPatch =
     \<lparr>childrenOnly = (getAttribute targetContainer ''phx-component'' = None),
      config_getNodeKey = getNodeKey store isJoinPatch,
      skipFromChildren = (\<lambda>from. getAttribute from ''phx-update'' = Some ''stream'')\<rparr>"

text \<open>
  A cache for the examples: the table after a hundred lookups of the query
  \<^verbatim>\<open>.item\<close> in a hundred scopes with distinct ids (\<^verbatim>\<open>a\<close>, \<^verbatim>\<open>aa\<close>, ...), one lookup per
  millisecond from time 0 to time 99, each finding nothing.
\<close>

definition example_scope :: "nat \<Rightarrow> nat node" where
  "example_scope i = Element (div_element i [(''id'', replicate (Suc i) CHR ''a'')])"

definition full_cache :: "nat queryCache" where
  "full_cache =
     map (\<lambda>i. (cacheKey (example_scope i) ''.item'', \<lparr>results = [], timestamp = int i\<rparr>)) [0..<100]"

section \<open>Properties of ObjectPool\<close>

text \<open>
  C9. The pool hands objects back last in, first out: after \<^verbatim>\<open>release(obj)\<close> the next
  \<^verbatim>\<open>get()\<close> returns \<open>obj\<close> itself, in the state the reset function left, and the pool is
  as it was before the release; \<^verbatim>\<open>get()\<close> on an empty pool returns what the factory
  constructs and leaves the pool empty; \<^verbatim>\<open>release\<close> makes the stored pool exactly one
  entry longer, whatever its size.
\<close>

theorem ObjectPool_lifo:
  "(ObjectPool_get (fst (ObjectPool_release p obj w)) (snd (ObjectPool_release p obj w))
      = (obj, p, (case resetFn p of Some rf \<Rightarrow> rf obj w | None \<Rightarrow> w)))
   \<and> (pool p = [] \<longrightarrow> ObjectPool_get p w = (fst (createFn p w), p, snd (createFn p w)))
   \<and> length (pool (fst (ObjectPool_release p obj w))) = length (pool p) + 1
   \<and> pool (fst (ObjectPool_release p obj w)) = pool p @ [obj]"
  by (simp add: ObjectPool_get_def ObjectPool_release_def Let_def)

theorem ObjectPool_lifo_witness:
  "pool (arrayPool :: (nat, nat array_heap) ObjectPool) = []
   \<and> fst (ObjectPool_get (arrayPool :: (nat, nat array_heap) ObjectPool)
            \<lparr>cells = (\<lambda>_. []), next_ref = 0\<rparr>) = 0
   \<and> fst (ObjectPool_get
            (fst (ObjectPool_release arrayPool 7 \<lparr>cells = (\<lambda>_. [1, 2]), next_ref = 8\<rparr>))
            (snd (ObjectPool_release arrayPool 7 \<lparr>cells = (\<lambda>_. [1, 2 :: nat]), next_ref = 8\<rparr>))) = 7
   \<and> cells (snd (snd (ObjectPool_get
            (fst (ObjectPool_release arrayPool 7 \<lparr>cells = (\<lambda>_. [1, 2]), next_ref = 8\<rparr>))
            (snd (ObjectPool_release arrayPool 7 \<lparr>cells = (\<lambda>_. [1, 2 :: nat]), next_ref = 8\<rparr>))))) 7 = []"
  using ObjectPool_lifo [of "arrayPool :: (nat, nat array_heap) ObjectPool" 7
      "\<lparr>cells = (\<lambda>_. [1, 2]), next_ref = 8\<rparr>"]
    ObjectPool_lifo [of "arrayPool :: (nat, nat array_heap) ObjectPool" 7
      "\<lparr>cells = (\<lambda>_. []), next_ref = 0\<rparr>"]
  by (simp add: arrayPool_def ObjectPool_new_def)

section \<open>Properties of optimizedStreamReorder\<close>

lemma indexOf_notin: "x \<notin> set cs \<Longrightarrow> indexOf cs x = -1"
  by (induction cs) (auto simp: Let_def)

lemma indexOf_in:
  "x \<in> set cs \<Longrightarrow> 0 \<le> indexOf cs x \<and> indexOf cs x < int (length cs) \<and> cs ! nat (indexOf cs x) = x"
  by (induction cs) (auto simp: Let_def nat_add_distrib indexOf_notin)

lemma indexOf_nth: "distinct cs \<Longrightarrow> i < length cs \<Longrightarrow> indexOf cs (cs ! i) = int i"
proof (induction cs arbitrary: i)
  case Nil
  then show ?case by simp
next
  case (Cons c cs)
  show ?case
  proof (cases i)
    case 0
    then show ?thesis by simp
  next
    case (Suc j)
    with Cons.prems have "j < length cs" "cs ! j \<noteq> c" "distinct cs" by auto
    with Cons.IH [of j] Suc show ?thesis by (simp add: Let_def)
  qed
qed

lemma removeAll_nth:
  "distinct cs \<Longrightarrow> i < length cs \<Longrightarrow> removeAll (cs ! i) cs = take i cs @ drop (Suc i) cs"
proof (induction cs arbitrary: i)
  case Nil
  then show ?case by simp
next
  case (Cons c cs)
  show ?case
  proof (cases i)
    case 0
    with Cons.prems show ?thesis by simp
  next
    case (Suc j)
    with Cons.prems have "j < length cs" "cs ! j \<noteq> c" "distinct cs" by auto
    with Cons.IH [of j] Suc show ?thesis by simp
  qed
qed

lemma insert_before_in_nth:
  "distinct xs \<Longrightarrow> k < length xs \<Longrightarrow>
   insert_before_in node (xs ! k) xs = take k xs @ node # drop k xs"
proof (induction xs arbitrary: k)
  case Nil
  then show ?case by simp
next
  case (Cons c cs)
  show ?case
  proof (cases k)
    case 0
    then show ?thesis by simp
  next
    case (Suc j)
    with Cons.prems have "j < length cs" "cs ! j \<noteq> c" "distinct cs" by auto
    with Cons.IH [of j] Suc show ?thesis by simp
  qed
qed

lemma nextElementSibling_at:
  "distinct cs \<Longrightarrow> Suc k < length cs \<Longrightarrow> s = cs ! k \<Longrightarrow>
   nextElementSibling cs s = Some (cs ! Suc k)"
proof (induction cs s arbitrary: k rule: nextElementSibling.induct)
  case (1 s)
  then show ?case by simp
next
  case (2 c s)
  then show ?case by simp
next
  case (3 c c' cs s)
  show ?case
  proof (cases k)
    case 0
    with "3.prems" show ?thesis by simp
  next
    case (Suc j)
    with "3.prems" have j: "Suc j < length (c' # cs)" and d: "distinct (c' # cs)"
      and s: "s = (c' # cs) ! j" by auto
    from j have "(c' # cs) ! j \<in> set (c' # cs)" by (intro nth_mem) simp
    with "3.prems" s have ne: "c \<noteq> s" by auto
    from "3.IH" [OF ne d j s] ne Suc show ?thesis by simp
  qed
qed


lemma removeAll_nth_index:
  assumes "distinct cs" "i < length cs" "j < length cs - 1"
  shows "removeAll (cs ! i) cs ! j = (if j < i then cs ! j else cs ! Suc j)"
    and "length (removeAll (cs ! i) cs) = length cs - 1"
  using assms by (auto simp: removeAll_nth nth_append min_def)

lemma children_detach:
  "parentElement d item = Some container \<Longrightarrow>
   children (detach d item) container = removeAll item (children d container)"
  by (simp add: detach_def)

lemma children_appendChild:
  "parentElement d item = Some container \<Longrightarrow>
   \<exists>d'. appendChild d container item = Inr d'
      \<and> children d' container = removeAll item (children d container) @ [item]"
  by (simp add: appendChild_def Let_def children_detach)

lemma children_insertBefore:
  "parentElement d item = Some container \<Longrightarrow> r \<in> set (children d container) \<Longrightarrow> r \<noteq> item \<Longrightarrow>
   \<exists>d'. insertBefore d container item (Some r) = Inr d'
      \<and> children d' container = insert_before_in item r (removeAll item (children d container))"
  by (simp add: insertBefore_def Let_def children_detach)

lemma reorder_children:
  assumes par: "parentElement d item = Some container"
    and mem: "item \<in> set (children d container)"
    and dist: "distinct (children d container)"
    and nonneg: "0 \<le> streamAt"
  shows "\<exists>d'. optimizedStreamReorder d container item streamAt = Inr d'
     \<and> children d' container =
         take (nat (min streamAt (int (length (children d container)) - 1)))
           (removeAll item (children d container))
         @ item #
         drop (nat (min streamAt (int (length (children d container)) - 1)))
           (removeAll item (children d container))"
proof -
  define cs where "cs = children d container"
  define cs1 where "cs1 = removeAll item cs"
  define T where "T = min streamAt (int (length cs) - 1)"
  define t where "t = nat T"
  from mem obtain i where i: "i < length cs" "cs ! i = item"
    unfolding cs_def by (auto simp: in_set_conv_nth)
  from dist have dcs: "distinct cs" by (simp add: cs_def)
  have idx: "indexOf cs item = int i" using indexOf_nth [OF dcs i(1)] i(2) by simp
  have cs1: "cs1 = take i cs @ drop (Suc i) cs"
    using removeAll_nth [OF dcs i(1)] i(2) by (simp add: cs1_def)
  have len1: "length cs1 = length cs - 1" using i(1) by (simp add: cs1)
  have d1: "distinct cs1" using dcs by (simp add: cs1_def distinct_removeAll)
  have T0: "0 \<le> T" "T \<le> int (length cs) - 1" using nonneg i(1) by (auto simp: T_def)
  have t: "t \<le> length cs - 1" "int t = T" using T0 by (auto simp: t_def)
  have same: "cs = take i cs1 @ item # drop i cs1"
    using i id_take_nth_drop [OF i(1)] by (simp add: cs1 min_def)
  have nth1: "\<And>j. j < length cs - 1 \<Longrightarrow> cs1 ! j = (if j < i then cs ! j else cs ! Suc j)"
    using removeAll_nth_index(1) [OF dcs i(1)] i(2) by (simp add: cs1_def)
  have moved: "\<exists>d'. insertBefore d container item (Some r) = Inr d'
      \<and> children d' container = take k cs1 @ item # drop k cs1"
    if "k < length cs1" "r = cs1 ! k" for r k
  proof -
    from that have "r \<in> set cs1" by simp
    then have r: "r \<in> set cs" "r \<noteq> item" by (auto simp: cs1_def)
    from children_insertBefore [OF par r(1) [unfolded cs_def] r(2)]
    show ?thesis using insert_before_in_nth [OF d1 that(1)] that(2)
      by (simp add: cs1_def cs_def)
  qed
  have goal: "\<exists>d'. optimizedStreamReorder d container item streamAt = Inr d'
     \<and> children d' container = take t cs1 @ item # drop t cs1"
  proof (cases "int i = T")
    case True
    then have ti: "t = i" using t by simp
    have "optimizedStreamReorder d container item streamAt = Inr d"
    proof (cases "streamAt = 0")
      case True
      with \<open>int i = T\<close> T0 have "i = 0" by (simp add: T_def)
      with i True par show ?thesis
        by (simp add: optimizedStreamReorder_def at_index_def cs_def [symmetric])
    next
      case False
      with nonneg True idx par show ?thesis
        by (simp add: optimizedStreamReorder_def Let_def cs_def [symmetric] T_def)
    qed
    with same ti show ?thesis by (simp add: cs_def)
  next
    case False
    then have ne: "i \<noteq> t" using t by auto
    show ?thesis
    proof (cases "streamAt = 0")
      case True
      then have t0: "t = 0" using T0 by (simp add: t_def T_def)
      with ne have ipos: "0 < i" by simp
      with i(1) have lpos: "0 < length cs" by arith
      from nth_eq_iff_index_eq [OF dcs lpos i(1)] ipos i(2) have hd: "cs ! 0 \<noteq> item" by simp
      note i0 = ipos hd
      from ipos have "0 < length cs1" "cs ! 0 = cs1 ! 0" using i(1) nth1 [of 0] len1 by auto
      from moved [OF this(1) this(2)] i0 lpos par True t0 show ?thesis
        by (auto simp: optimizedStreamReorder_def at_index_def cs_def [symmetric])
    next
      case pos: False
      with nonneg have pos': "0 < streamAt" by simp
      show ?thesis
      proof (cases "T \<ge> int (length cs) - 1")
        case True
        then have "t = length cs1" using t len1 T0 by auto
        with children_appendChild [OF par] True pos pos' idx False par show ?thesis
          by (auto simp: optimizedStreamReorder_def Let_def cs_def [symmetric] T_def [symmetric] cs1_def)
      next
        case small: False
        then have tl: "Suc t < length cs" "t < length cs1" using t len1 T0 by auto
        then have at: "at_index cs T = Some (cs ! t)" using T0 by (simp add: at_index_def t_def)
        show ?thesis
        proof (cases "i > t")
          case True
          then have "cs ! t = cs1 ! t" using nth1 [of t] tl by simp
          from moved [OF tl(2) this] True small pos pos' idx False par at t show ?thesis
            by (auto simp: optimizedStreamReorder_def Let_def cs_def [symmetric] T_def [symmetric])
        next
          case before: False
          with ne have lt: "i < t" by simp
          then have r: "cs ! Suc t = cs1 ! t" using nth1 [of t] tl by simp
          have nx: "nextElementSibling cs (cs ! t) = Some (cs ! Suc t)"
            using nextElementSibling_at [OF dcs tl(1)] by simp
          from moved [OF tl(2) r] lt small pos pos' idx False par at t nx show ?thesis
            by (auto simp: optimizedStreamReorder_def Let_def cs_def [symmetric] T_def [symmetric])
        qed
      qed
    qed
  qed
  then show ?thesis by (simp add: t_def T_def cs1_def cs_def)
qed

text \<open>
  C5. For an item that is a child of the container and a non-negative \<^verbatim>\<open>streamAt\<close>,
  the call succeeds and afterwards the item is at position
  \<open>min streamAt (childCount - 1)\<close> of the container's children (position 0 when
  \<^verbatim>\<open>streamAt\<close> is 0, since the container has at least one child), and nowhere else; the
  container has as many children as before, and without the item they are the same
  sequence as before the call, so the relative order of the other children is kept.
  The witness is the reorder of D to position 1 in the children A, B, C, D, which gives
  A, D, B, C.
\<close>

theorem reorder_position:
  assumes "parentElement d item = Some container"
    and "item \<in> set (children d container)"
    and "distinct (children d container)"
    and "0 \<le> streamAt"
  shows "\<exists>d'. optimizedStreamReorder d container item streamAt = Inr d'
     \<and> children d' container ! nat (min streamAt (int (length (children d container)) - 1)) = item
     \<and> indexOf (children d' container) item = min streamAt (int (length (children d container)) - 1)
     \<and> length (children d' container) = length (children d container)
     \<and> distinct (children d' container)
     \<and> removeAll item (children d' container) = removeAll item (children d container)"
proof -
  define cs1 where "cs1 = removeAll item (children d container)"
  define t where "t = nat (min streamAt (int (length (children d container)) - 1))"
  from assms(2) have pos: "0 < length (children d container)" by (cases "children d container") auto
  from assms(2,3) have len1: "Suc (length cs1) = length (children d container)"
    by (auto simp: cs1_def in_set_conv_nth removeAll_nth)
  have notin: "item \<notin> set cs1" by (simp add: cs1_def)
  have d1: "distinct cs1" using assms(3) by (simp add: cs1_def distinct_removeAll)
  have t: "t \<le> length cs1" "int t = min streamAt (int (length (children d container)) - 1)"
    using assms(4) len1 by (auto simp: t_def)
  from reorder_children [OF assms] obtain d' where
    r: "optimizedStreamReorder d container item streamAt = Inr d'"
    and c: "children d' container = take t cs1 @ item # drop t cs1"
    by (auto simp: cs1_def t_def)
  have dist: "distinct (take t cs1 @ item # drop t cs1)"
    using d1 notin by (auto simp: dest: in_set_takeD in_set_dropD set_take_disj_set_drop_if_distinct)
  have at: "(take t cs1 @ item # drop t cs1) ! t = item"
    using t(1) by (simp add: nth_append)
  have lt: "t < length (take t cs1 @ item # drop t cs1)" using t(1) by simp
  have "indexOf (take t cs1 @ item # drop t cs1) item = int t"
    using indexOf_nth [OF dist lt] at by simp
  moreover have "removeAll item (take t cs1 @ item # drop t cs1) = cs1"
  proof -
    from notin have "item \<notin> set (take t cs1)" "item \<notin> set (drop t cs1)"
      by (auto dest: in_set_takeD in_set_dropD)
    then show ?thesis by (simp add: removeAll_id)
  qed
  moreover have "length (take t cs1 @ item # drop t cs1) = length (children d container)"
    using t(1) len1 by simp
  ultimately show ?thesis using r c at dist t(2)
    by (simp add: cs1_def [symmetric] t_def [symmetric])
qed

theorem reorder_position_witness:
  "parentElement \<lparr>children = (\<lambda>n. if n = (0::nat) then [1, 2, 3, 4] else []),
                   parentElement = (\<lambda>n. if n \<in> {1, 2, 3, 4} then Some 0 else None)\<rparr> 4 = Some 0
   \<and> 4 \<in> set (children \<lparr>children = (\<lambda>n. if n = (0::nat) then [1, 2, 3, 4] else []),
                   parentElement = (\<lambda>n. if n \<in> {1, 2, 3, 4} then Some 0 else None)\<rparr> 0)
   \<and> (0::int) \<le> 1
   \<and> (\<exists>d'. optimizedStreamReorder
              \<lparr>children = (\<lambda>n. if n = (0::nat) then [1, 2, 3, 4] else []),
               parentElement = (\<lambda>n. if n \<in> {1, 2, 3, 4} then Some 0 else None)\<rparr> 0 4 1 = Inr d'
          \<and> children d' 0 = [1, 4, 2, 3]
          \<and> children d' 0 ! 1 = 4
          \<and> removeAll 4 (children d' 0) = [1, 2, 3])"
  using reorder_position [of
      "\<lparr>children = (\<lambda>n. if n = (0::nat) then [1, 2, 3, 4] else []),
        parentElement = (\<lambda>n. if n \<in> {1, 2, 3, 4} then Some 0 else None)\<rparr>" 4 0 1]
  by (simp add: optimizedStreamReorder_def insertBefore_def detach_def at_index_def Let_def)

text \<open>
  C10. With a negative \<^verbatim>\<open>streamAt\<close> the call changes nothing, for every tree, container
  and item: neither the \<^verbatim>\<open>streamAt === 0\<close> branch nor the \<^verbatim>\<open>streamAt > 0\<close> branch is
  taken, no insertion is made and no exception is raised.
\<close>

theorem reorder_negative_noop:
  "streamAt < 0 \<Longrightarrow> optimizedStreamReorder d container item streamAt = Inr d"
  by (simp add: optimizedStreamReorder_def)

theorem reorder_negative_noop_witness:
  "(-1 :: int) < 0
   \<and> optimizedStreamReorder
        \<lparr>children = (\<lambda>n. if n = (0::nat) then [1, 2, 3] else []),
         parentElement = (\<lambda>n. if n \<in> {1, 2, 3} then Some 0 else None)\<rparr> 0 3 (-1)
      = Inr \<lparr>children = (\<lambda>n. if n = (0::nat) then [1, 2, 3] else []),
             parentElement = (\<lambda>n. if n \<in> {1, 2, 3} then Some 0 else None)\<rparr>"
  using reorder_negative_noop [of "-1"
      "\<lparr>children = (\<lambda>n. if n = (0::nat) then [1, 2, 3] else []),
        parentElement = (\<lambda>n. if n \<in> {1, 2, 3} then Some 0 else None)\<rparr>" 0 3]
  by simp

section \<open>Properties of optimizedMergeAttrs\<close>

lemma collectSets_filter:
  "collectSets target source opts xs =
     filter (\<lambda>(name, v).
        if name \<notin> set (exclude opts)
        then getAttribute target name \<noteq> Some v \<and> (\<not> isIgnored opts \<or> startsWith name ''data-'')
        else name = ''value'' \<and> value_prop target = value_prop source) xs"
proof (induction xs)
  case Nil
  show ?case by simp
next
  case (Cons x xs)
  obtain k w where x: "x = (k, w)" by (cases x)
  show ?case unfolding x collectSets.simps Cons.IH by simp
qed

lemma collectRemoves_filter:
  "collectRemoves c source opts xs =
     filter (\<lambda>name.
        if isIgnored opts
        then startsWith name ''data-'' \<and> \<not> hasAttribute source name
             \<and> name \<noteq> PHX_REF c \<and> name \<noteq> PHX_REF_SRC c
        else \<not> hasAttribute source name) (map fst xs)"
proof (induction xs)
  case Nil
  show ?case by simp
next
  case (Cons x xs)
  obtain k w where x: "x = (k, w)" by (cases x)
  show ?case unfolding x collectRemoves.simps Cons.IH by simp
qed

lemma map_of_filter_distinct:
  "distinct (map fst xs) \<Longrightarrow>
   map_of (filter P xs) n =
     (case map_of xs n of None \<Rightarrow> None | Some v \<Rightarrow> if P (n, v) then Some v else None)"
proof (induction xs)
  case Nil
  then show ?case by simp
next
  case (Cons x xs)
  obtain k w where x: "x = (k, w)" by (cases x)
  from Cons.prems x have "map_of xs k = None"
    by (simp add: map_of_eq_None_iff)
  with Cons x show ?case by (auto split: option.splits)
qed

lemma attributes_fold_set:
  "distinct (map fst sets) \<Longrightarrow>
   map_of (attributes (fold (\<lambda>(name, v) t. setAttribute t name v) sets t)) n =
     (case map_of sets n of Some v \<Rightarrow> Some v | None \<Rightarrow> map_of (attributes t) n)"
proof (induction sets arbitrary: t)
  case Nil
  then show ?case by simp
next
  case (Cons x sets)
  obtain k w where x: "x = (k, w)" by (cases x)
  from Cons.prems x have "map_of sets k = None"
    by (simp add: map_of_eq_None_iff)
  with Cons x show ?case
    by (auto simp: setAttribute_def update_conv' split: option.splits)
qed

lemma attributes_fold_remove:
  "map_of (attributes (fold (\<lambda>name t. removeAttribute t name) rs t)) n =
     (if n \<in> set rs then None else map_of (attributes t) n)"
  by (induction rs arbitrary: t) (auto simp: removeAttribute_def delete_conv')

lemma hasAttribute_iff: "hasAttribute el n \<longleftrightarrow> getAttribute el n \<noteq> None"
  by (simp add: hasAttribute_def getAttribute_def map_of_eq_None_iff)

lemma merge_getAttribute:
  assumes "distinct (map fst (attributes source))"
  shows "getAttribute (optimizedMergeAttrs c target source opts) n =
     (case getAttribute source n of
        Some v \<Rightarrow>
          if (if n \<notin> set (exclude opts) then \<not> isIgnored opts \<or> startsWith n ''data-''
              else n = ''value'' \<and> value_prop target = value_prop source)
          then Some v else getAttribute target n
      | None \<Rightarrow>
          if (if isIgnored opts
              then startsWith n ''data-'' \<and> n \<noteq> PHX_REF c \<and> n \<noteq> PHX_REF_SRC c
              else True)
          then None else getAttribute target n)"
proof -
  define sets where "sets = collectSets target source opts (attributes source)"
  define rems where "rems = collectRemoves c source opts (attributes target)"
  define target1 where "target1 = fold (\<lambda>(name, v) t. setAttribute t name v) sets target"
  have d: "distinct (map fst sets)"
    using assms by (simp add: sets_def collectSets_filter distinct_map_filter)
  have sets: "map_of sets n =
     (case map_of (attributes source) n of
        None \<Rightarrow> None
      | Some v \<Rightarrow>
          if (if n \<notin> set (exclude opts)
              then getAttribute target n \<noteq> Some v \<and> (\<not> isIgnored opts \<or> startsWith n ''data-'')
              else n = ''value'' \<and> value_prop target = value_prop source)
          then Some v else None)"
    unfolding sets_def collectSets_filter map_of_filter_distinct [OF assms]
    by (auto split: option.splits)
  have rems: "n \<in> set rems \<longleftrightarrow>
     map_of (attributes target) n \<noteq> None \<and>
     (if isIgnored opts
      then startsWith n ''data-'' \<and> map_of (attributes source) n = None
           \<and> n \<noteq> PHX_REF c \<and> n \<noteq> PHX_REF_SRC c
      else map_of (attributes source) n = None)"
    unfolding rems_def collectRemoves_filter
    by (simp add: hasAttribute_def map_of_eq_None_iff)
  have t1: "map_of (attributes target1) n =
     (case map_of sets n of Some v \<Rightarrow> Some v | None \<Rightarrow> map_of (attributes target) n)"
    unfolding target1_def by (rule attributes_fold_set [OF d])
  have res: "getAttribute (optimizedMergeAttrs c target source opts) n =
     (if n \<in> set rems then None else map_of (attributes target1) n)"
    unfolding optimizedMergeAttrs_def mergeOps_def Let_def fst_conv snd_conv getAttribute_def
      sets_def [symmetric] rems_def [symmetric] target1_def [symmetric]
    by (rule attributes_fold_remove)
  show ?thesis
    unfolding res t1 sets
    by (cases "map_of (attributes source) n"; cases "map_of (attributes target) n")
       (auto simp: rems getAttribute_def)
qed


lemma mem_attributes_iff:
  "distinct (map fst (attributes el)) \<Longrightarrow> (n, v) \<in> set (attributes el) \<longleftrightarrow> getAttribute el n = Some v"
  by (auto simp: getAttribute_def dest: map_of_SomeD)

text \<open>
  C1 (as amended). After a merge with \<^verbatim>\<open>isIgnored\<close> false, for every name: a name that
  is not on the source is absent from the target; a name on the source that is not
  excluded, or is \<^verbatim>\<open>value\<close> under the value exception (excluded, the \<^verbatim>\<open>value\<close>
  properties of target and source equal), is on the target with the source's value; a
  name on the source that is excluded without the exception is left as the target had
  it: kept with the target's own value, or absent. The claim as stated has the last case
  absent from the target: the counterexample is an excluded \<^verbatim>\<open>class\<close> on both elements,
  which stays on the target with the target's value.
\<close>

theorem merge_full_sync:
  assumes "distinct (map fst (attributes source))"
    and "\<not> isIgnored opts"
  shows "getAttribute (optimizedMergeAttrs c target source opts) n =
     (if hasAttribute source n
      then (if n \<notin> set (exclude opts) \<or> (n = ''value'' \<and> value_prop target = value_prop source)
            then getAttribute source n else getAttribute target n)
      else None)"
  using assms(2) unfolding merge_getAttribute [OF assms(1)] hasAttribute_iff
  by (auto split: option.splits)

theorem merge_full_sync_counterexample:
  "getAttribute
     (optimizedMergeAttrs example_constants (div_element 0 [(''class'', ''a'')])
        (div_element 1 [(''class'', ''b'')]) \<lparr>exclude = [''class''], isIgnored = False\<rparr>)
     ''class'' = Some ''a''
   \<and> spec_full_sync_attr (div_element 0 [(''class'', ''a'')])
        (div_element 1 [(''class'', ''b'')]) \<lparr>exclude = [''class''], isIgnored = False\<rparr>
        ''class'' = None"
  by (simp add: optimizedMergeAttrs_def mergeOps_def div_element_def getAttribute_def
      hasAttribute_def spec_full_sync_attr_def)

theorem merge_full_sync_witness:
  "distinct (map fst (attributes (div_element 1 [(''class'', ''b''), (''id'', ''s'')])))
   \<and> \<not> isIgnored \<lparr>exclude = [''class''], isIgnored = False\<rparr>
   \<and> getAttribute
        (optimizedMergeAttrs example_constants (div_element 0 [(''class'', ''a''), (''title'', ''t'')])
          (div_element 1 [(''class'', ''b''), (''id'', ''s'')]) \<lparr>exclude = [''class''], isIgnored = False\<rparr>)
        ''class'' = Some ''a''
   \<and> getAttribute
        (optimizedMergeAttrs example_constants (div_element 0 [(''class'', ''a''), (''title'', ''t'')])
          (div_element 1 [(''class'', ''b''), (''id'', ''s'')]) \<lparr>exclude = [''class''], isIgnored = False\<rparr>)
        ''id'' = Some ''s''
   \<and> getAttribute
        (optimizedMergeAttrs example_constants (div_element 0 [(''class'', ''a''), (''title'', ''t'')])
          (div_element 1 [(''class'', ''b''), (''id'', ''s'')]) \<lparr>exclude = [''class''], isIgnored = False\<rparr>)
        ''title'' = None"
  using
    merge_full_sync [of "div_element 1 [(''class'', ''b''), (''id'', ''s'')]"
      "\<lparr>exclude = [''class''], isIgnored = False\<rparr>" example_constants
      "div_element 0 [(''class'', ''a''), (''title'', ''t'')]" "''class''"]
    merge_full_sync [of "div_element 1 [(''class'', ''b''), (''id'', ''s'')]"
      "\<lparr>exclude = [''class''], isIgnored = False\<rparr>" example_constants
      "div_element 0 [(''class'', ''a''), (''title'', ''t'')]" "''id''"]
    merge_full_sync [of "div_element 1 [(''class'', ''b''), (''id'', ''s'')]"
      "\<lparr>exclude = [''class''], isIgnored = False\<rparr>" example_constants
      "div_element 0 [(''class'', ''a''), (''title'', ''t'')]" "''title''"]
  by (simp add: div_element_def getAttribute_def hasAttribute_def)

text \<open>
  C2 (as amended). With \<^verbatim>\<open>isIgnored\<close> true the additions pass records a set operation
  for a non-excluded attribute of the source only when its name begins with
  \<^verbatim>\<open>data-\<close> (and its value differs from the target's): after the call the target has
  the source's value for every non-excluded name of the source that begins with
  \<^verbatim>\<open>data-\<close>, and every other non-excluded name of the source is as the target had it.
  The counterexample is a \<^verbatim>\<open>class\<close> that differs: no set operation is recorded and the
  target keeps its own value.
\<close>

theorem merge_filtered_additions:
  assumes "distinct (map fst (attributes source))"
    and "isIgnored opts"
    and "getAttribute source n = Some v"
    and "n \<notin> set (exclude opts)"
  shows "getAttribute (optimizedMergeAttrs c target source opts) n =
           (if startsWith n ''data-'' then Some v else getAttribute target n)
     \<and> ((n, v) \<in> set (fst (mergeOps c target source opts))
          \<longleftrightarrow> startsWith n ''data-'' \<and> getAttribute target n \<noteq> Some v)"
proof -
  have "(n, v) \<in> set (attributes source)"
    using assms(1,3) by (simp add: mem_attributes_iff)
  then have "(n, v) \<in> set (fst (mergeOps c target source opts))
          \<longleftrightarrow> startsWith n ''data-'' \<and> getAttribute target n \<noteq> Some v"
    using assms(2,4) by (auto simp: mergeOps_def collectSets_filter)
  then show ?thesis
    using assms(2,3,4) unfolding merge_getAttribute [OF assms(1)] by simp
qed

theorem merge_filtered_additions_counterexample:
  "isIgnored \<lparr>exclude = [], isIgnored = True\<rparr>
   \<and> getAttribute (div_element 1 [(''class'', ''b'')]) ''class'' = Some ''b''
   \<and> getAttribute (div_element 0 [(''class'', ''a'')]) ''class'' = Some ''a''
   \<and> fst (mergeOps example_constants (div_element 0 [(''class'', ''a'')])
        (div_element 1 [(''class'', ''b'')]) \<lparr>exclude = [], isIgnored = True\<rparr>) = []
   \<and> getAttribute
        (optimizedMergeAttrs example_constants (div_element 0 [(''class'', ''a'')])
          (div_element 1 [(''class'', ''b'')]) \<lparr>exclude = [], isIgnored = True\<rparr>)
        ''class'' = Some ''a''"
  by (simp add: optimizedMergeAttrs_def mergeOps_def div_element_def getAttribute_def
      hasAttribute_def startsWith_def)

theorem merge_filtered_additions_witness:
  "distinct (map fst (attributes (div_element 1 [(''class'', ''b''), (''data-y'', ''2'')])))
   \<and> isIgnored \<lparr>exclude = [], isIgnored = True\<rparr>
   \<and> getAttribute (div_element 1 [(''class'', ''b''), (''data-y'', ''2'')]) ''data-y'' = Some ''2''
   \<and> ''data-y'' \<notin> set (exclude \<lparr>exclude = [], isIgnored = True\<rparr>)
   \<and> getAttribute
        (optimizedMergeAttrs example_constants (div_element 0 [(''class'', ''a''), (''data-y'', ''1'')])
          (div_element 1 [(''class'', ''b''), (''data-y'', ''2'')]) \<lparr>exclude = [], isIgnored = True\<rparr>)
        ''data-y'' = Some ''2''
   \<and> getAttribute
        (optimizedMergeAttrs example_constants (div_element 0 [(''class'', ''a''), (''data-y'', ''1'')])
          (div_element 1 [(''class'', ''b''), (''data-y'', ''2'')]) \<lparr>exclude = [], isIgnored = True\<rparr>)
        ''class'' = Some ''a''"
  using
    merge_filtered_additions [of "div_element 1 [(''class'', ''b''), (''data-y'', ''2'')]"
      "\<lparr>exclude = [], isIgnored = True\<rparr>" "''data-y''" "''2''" example_constants
      "div_element 0 [(''class'', ''a''), (''data-y'', ''1'')]"]
    merge_filtered_additions [of "div_element 1 [(''class'', ''b''), (''data-y'', ''2'')]"
      "\<lparr>exclude = [], isIgnored = True\<rparr>" "''class''" "''b''" example_constants
      "div_element 0 [(''class'', ''a''), (''data-y'', ''1'')]"]
  by (simp add: div_element_def getAttribute_def startsWith_def)


text \<open>
  C7 (as amended). With \<^verbatim>\<open>value\<close> in the exclude set, what happens to the target's
  \<^verbatim>\<open>value\<close> attribute depends on whether the source carries that attribute; the test
  of line 66, \<^verbatim>\<open>target.value === source.value\<close>, compares the \<^verbatim>\<open>value\<close> properties and
  is only reached for an attribute of the source. When the source carries \<^verbatim>\<open>value\<close>
  with the value \<open>X\<close>: if the test holds the attribute is resynced rather than skipped (a
  set operation for it is recorded), no removal of it is recorded, and after the merge
  the target's \<^verbatim>\<open>value\<close> attribute is \<open>X\<close>, both when the test holds and when the
  target's attribute was \<open>X\<close> before. When the source carries no \<^verbatim>\<open>value\<close> attribute:
  no set operation for it is recorded, whatever the properties are; with \<^verbatim>\<open>isIgnored\<close>
  false the target's \<^verbatim>\<open>value\<close> attribute is removed, with \<^verbatim>\<open>isIgnored\<close> true it is
  left as it was. The counterexample is the latter case: both properties are \<open>X\<close>, the
  target's attribute is \<open>X\<close>, and the merge removes it.
\<close>

theorem merge_value_exception:
  assumes "distinct (map fst (attributes source))"
    and "''value'' \<in> set (exclude opts)"
  shows "(getAttribute source ''value'' = Some X \<longrightarrow>
            (value_prop target = value_prop source \<longrightarrow>
               (''value'', X) \<in> set (fst (mergeOps c target source opts)))
          \<and> ''value'' \<notin> set (snd (mergeOps c target source opts))
          \<and> (value_prop target = value_prop source \<or> getAttribute target ''value'' = Some X \<longrightarrow>
               getAttribute (optimizedMergeAttrs c target source opts) ''value'' = Some X))
     \<and> (getAttribute source ''value'' = None \<longrightarrow>
            ''value'' \<notin> fst ` set (fst (mergeOps c target source opts))
          \<and> (''value'' \<in> set (snd (mergeOps c target source opts))
               \<longleftrightarrow> \<not> isIgnored opts \<and> getAttribute target ''value'' \<noteq> None)
          \<and> getAttribute (optimizedMergeAttrs c target source opts) ''value''
               = (if isIgnored opts then getAttribute target ''value'' else None))"
proof (intro conjI impI)
  assume src: "getAttribute source ''value'' = Some X"
  then have mem: "(''value'', X) \<in> set (attributes source)"
    using assms(1) by (simp add: mem_attributes_iff)
  show "(''value'', X) \<in> set (fst (mergeOps c target source opts))"
    if "value_prop target = value_prop source"
    using assms(2) that mem by (simp add: mergeOps_def collectSets_filter)
  show "''value'' \<notin> set (snd (mergeOps c target source opts))"
    using src by (auto simp: mergeOps_def collectRemoves_filter hasAttribute_iff)
  show "getAttribute (optimizedMergeAttrs c target source opts) ''value'' = Some X"
    if "value_prop target = value_prop source \<or> getAttribute target ''value'' = Some X"
    using assms(2) src that unfolding merge_getAttribute [OF assms(1)] by auto
next
  assume nosrc: "getAttribute source ''value'' = None"
  then have notin: "''value'' \<notin> fst ` set (attributes source)"
    by (simp add: getAttribute_def map_of_eq_None_iff)
  show "''value'' \<notin> fst ` set (fst (mergeOps c target source opts))"
    using notin by (auto simp: mergeOps_def collectSets_filter)
  show "''value'' \<in> set (snd (mergeOps c target source opts))
      \<longleftrightarrow> \<not> isIgnored opts \<and> getAttribute target ''value'' \<noteq> None"
    using notin
    by (auto simp: mergeOps_def collectRemoves_filter hasAttribute_def getAttribute_def
        map_of_eq_None_iff startsWith_def)
  show "getAttribute (optimizedMergeAttrs c target source opts) ''value''
      = (if isIgnored opts then getAttribute target ''value'' else None)"
    using nosrc unfolding merge_getAttribute [OF assms(1)] by (simp add: startsWith_def)
qed

theorem merge_value_exception_counterexample:
  "''value'' \<in> set (exclude \<lparr>exclude = [''value''], isIgnored = False\<rparr>)
   \<and> value_prop (input_element 0 [(''value'', ''X'')] ''X'') = JStr ''X''
   \<and> value_prop (input_element 1 [] ''X'') = JStr ''X''
   \<and> getAttribute (input_element 0 [(''value'', ''X'')] ''X'') ''value'' = Some ''X''
   \<and> mergeOps example_constants (input_element 0 [(''value'', ''X'')] ''X'')
        (input_element 1 [] ''X'') \<lparr>exclude = [''value''], isIgnored = False\<rparr>
       = ([], [''value''])
   \<and> getAttribute
        (optimizedMergeAttrs example_constants (input_element 0 [(''value'', ''X'')] ''X'')
          (input_element 1 [] ''X'') \<lparr>exclude = [''value''], isIgnored = False\<rparr>)
        ''value'' = None"
  by (simp add: optimizedMergeAttrs_def mergeOps_def input_element_def getAttribute_def
      hasAttribute_def removeAttribute_def)

theorem merge_value_exception_witness:
  "distinct (map fst (attributes (input_element 1 [(''type'', ''text''), (''value'', ''X'')] ''X'')))
   \<and> ''value'' \<in> set (exclude \<lparr>exclude = [''value''], isIgnored = False\<rparr>)
   \<and> getAttribute (input_element 1 [(''type'', ''text''), (''value'', ''X'')] ''X'') ''value'' = Some ''X''
   \<and> value_prop (input_element 0 [(''value'', ''X''), (''name'', ''q'')] ''X'')
       = value_prop (input_element 1 [(''type'', ''text''), (''value'', ''X'')] ''X'')
   \<and> mergeOps example_constants (input_element 0 [(''value'', ''X''), (''name'', ''q'')] ''X'')
        (input_element 1 [(''type'', ''text''), (''value'', ''X'')] ''X'')
        \<lparr>exclude = [''value''], isIgnored = False\<rparr>
       = ([(''type'', ''text''), (''value'', ''X'')], [''name''])
   \<and> getAttribute
        (optimizedMergeAttrs example_constants (input_element 0 [(''value'', ''X''), (''name'', ''q'')] ''X'')
          (input_element 1 [(''type'', ''text''), (''value'', ''X'')] ''X'')
          \<lparr>exclude = [''value''], isIgnored = False\<rparr>)
        ''value'' = Some ''X''
   \<and> getAttribute (input_element 1 [(''type'', ''text'')] ''X'') ''value'' = None
   \<and> getAttribute
        (optimizedMergeAttrs example_constants (input_element 0 [(''value'', ''X''), (''name'', ''q'')] ''X'')
          (input_element 1 [(''type'', ''text'')] ''X'')
          \<lparr>exclude = [''value''], isIgnored = True\<rparr>)
        ''value'' = Some ''X''"
  using
    merge_value_exception [where source = "input_element 1 [(''type'', ''text''), (''value'', ''X'')] ''X''"
      and opts = "\<lparr>exclude = [''value''], isIgnored = False\<rparr>"
      and target = "input_element 0 [(''value'', ''X''), (''name'', ''q'')] ''X''"
      and X = "''X''" and c = example_constants]
    merge_value_exception [where source = "input_element 1 [(''type'', ''text'')] ''X''"
      and opts = "\<lparr>exclude = [''value''], isIgnored = True\<rparr>"
      and target = "input_element 0 [(''value'', ''X''), (''name'', ''q'')] ''X''"
      and X = "''X''" and c = example_constants]
  by (simp add: input_element_def getAttribute_def hasAttribute_def mergeOps_def)

lemma fold_setAttribute_same:
  "list_all (\<lambda>(name, v). getAttribute t name = Some v) sets \<Longrightarrow>
   fold (\<lambda>(name, v) t. setAttribute t name v) sets t = t"
proof (induction sets)
  case Nil
  show ?case by simp
next
  case (Cons x sets)
  obtain n v where x: "x = (n, v)" by (cases x)
  from Cons.prems x have "setAttribute t n v = t"
    by (simp add: setAttribute_def getAttribute_def update_triv)
  with Cons x show ?case by simp
qed

text \<open>
  C3 (as amended). A second merge with the same source and options, on a target whose
  attributes are those the first merge left, records no removal, and records no set
  operation but the one of the value exception: when \<^verbatim>\<open>value\<close> is excluded, the source
  carries a \<^verbatim>\<open>value\<close> attribute and the \<^verbatim>\<open>value\<close> properties are equal at the second
  call, that attribute is set again, to the source's attribute value. In every other
  case the second call performs zero writes. If moreover the target's \<^verbatim>\<open>value\<close>
  property at the second call is what it was at the first, every set operation of the
  second call writes the value the attribute already has, and the second call leaves the
  target as it was. The counterexample is an input whose \<^verbatim>\<open>value\<close> attribute and
  property equal the source's, with \<^verbatim>\<open>value\<close> excluded: the first call leaves the
  target as it was and the second call writes \<^verbatim>\<open>value\<close> again.
\<close>

theorem merge_second_call:
  assumes "distinct (map fst (attributes source))"
    and "attributes target2 = attributes (optimizedMergeAttrs c target source opts)"
  shows "mergeOps c target2 source opts =
       (filter (\<lambda>(name, v). name = ''value'' \<and> ''value'' \<in> set (exclude opts)
                  \<and> value_prop target2 = value_prop source) (attributes source), [])
     \<and> (\<not> (''value'' \<in> set (exclude opts) \<and> hasAttribute source ''value''
              \<and> value_prop target2 = value_prop source)
          \<longrightarrow> mergeOps c target2 source opts = ([], []))
     \<and> (value_prop target2 = value_prop target \<longrightarrow>
            list_all (\<lambda>(name, v). getAttribute target2 name = Some v)
              (fst (mergeOps c target2 source opts))
          \<and> optimizedMergeAttrs c target2 source opts = target2)"
proof -
  have get2: "getAttribute target2 n = getAttribute (optimizedMergeAttrs c target source opts) n" for n
    by (simp add: getAttribute_def assms(2))
  have "collectSets target2 source opts (attributes source) =
     filter (\<lambda>(name, v). name = ''value'' \<and> ''value'' \<in> set (exclude opts)
                \<and> value_prop target2 = value_prop source) (attributes source)"
    unfolding collectSets_filter
  proof (rule filter_cong [OF refl])
    fix x assume x: "x \<in> set (attributes source)"
    obtain n v where nv: "x = (n, v)" by (cases x)
    with x assms(1) have s: "getAttribute source n = Some v" by (simp add: mem_attributes_iff)
    show "(case x of (name, v) \<Rightarrow>
            if name \<notin> set (exclude opts)
            then getAttribute target2 name \<noteq> Some v \<and> (\<not> isIgnored opts \<or> startsWith name ''data-'')
            else name = ''value'' \<and> value_prop target2 = value_prop source)
        = (case x of (name, v) \<Rightarrow> name = ''value'' \<and> ''value'' \<in> set (exclude opts)
            \<and> value_prop target2 = value_prop source)"
      unfolding nv get2 merge_getAttribute [OF assms(1)] using s by auto
  qed
  moreover have "collectRemoves c source opts (attributes target2) = []"
    unfolding collectRemoves_filter filter_empty_conv
  proof
    fix n assume "n \<in> set (map fst (attributes target2))"
    then have "getAttribute target2 n \<noteq> None"
      by (simp add: getAttribute_def map_of_eq_None_iff)
    then show "\<not> (if isIgnored opts
            then startsWith n ''data-'' \<and> \<not> hasAttribute source n
                 \<and> n \<noteq> PHX_REF c \<and> n \<noteq> PHX_REF_SRC c
            else \<not> hasAttribute source n)"
      unfolding get2 merge_getAttribute [OF assms(1)] hasAttribute_iff
      by (auto split: option.splits if_splits)
  qed
  ultimately have eq: "mergeOps c target2 source opts =
       (filter (\<lambda>(name, v). name = ''value'' \<and> ''value'' \<in> set (exclude opts)
                  \<and> value_prop target2 = value_prop source) (attributes source), [])"
    by (simp add: mergeOps_def)
  have none: "filter (\<lambda>(name, v). name = ''value'' \<and> ''value'' \<in> set (exclude opts)
                  \<and> value_prop target2 = value_prop source) (attributes source) = []"
    if "\<not> (''value'' \<in> set (exclude opts) \<and> hasAttribute source ''value''
              \<and> value_prop target2 = value_prop source)"
    using that unfolding filter_empty_conv hasAttribute_def by force
  have same: "list_all (\<lambda>(name, v). getAttribute target2 name = Some v)
                (fst (mergeOps c target2 source opts))"
    if vp: "value_prop target2 = value_prop target"
    unfolding eq fst_conv list_all_iff
  proof
    fix x
    assume x: "x \<in> set (filter (\<lambda>(name, v). name = ''value'' \<and> ''value'' \<in> set (exclude opts)
                  \<and> value_prop target2 = value_prop source) (attributes source))"
    obtain n v where nv: "x = (n, v)" by (cases x)
    from x nv have f: "(n, v) \<in> set (attributes source)" "n = ''value''"
      "''value'' \<in> set (exclude opts)" "value_prop target2 = value_prop source"
      by auto
    from f(1) assms(1) have s: "getAttribute source n = Some v" by (simp add: mem_attributes_iff)
    have "getAttribute target2 n = Some v"
      unfolding get2 merge_getAttribute [OF assms(1)] using s f(2,3,4) vp by simp
    then show "case x of (name, v) \<Rightarrow> getAttribute target2 name = Some v"
      by (simp add: nv)
  qed
  have unchanged: "optimizedMergeAttrs c target2 source opts = target2"
    if vp: "value_prop target2 = value_prop target"
  proof -
    have "snd (mergeOps c target2 source opts) = []" by (simp add: eq)
    then show ?thesis
      using fold_setAttribute_same [OF same [OF vp]]
      by (simp add: optimizedMergeAttrs_def Let_def)
  qed
  from eq none same unchanged show ?thesis by simp
qed

theorem merge_second_call_counterexample:
  "optimizedMergeAttrs example_constants (input_element 0 [(''value'', ''X'')] ''X'')
      (input_element 1 [(''value'', ''X'')] ''X'') \<lparr>exclude = [''value''], isIgnored = False\<rparr>
     = input_element 0 [(''value'', ''X'')] ''X''
   \<and> mergeOps example_constants
       (optimizedMergeAttrs example_constants (input_element 0 [(''value'', ''X'')] ''X'')
          (input_element 1 [(''value'', ''X'')] ''X'') \<lparr>exclude = [''value''], isIgnored = False\<rparr>)
       (input_element 1 [(''value'', ''X'')] ''X'') \<lparr>exclude = [''value''], isIgnored = False\<rparr>
     = ([(''value'', ''X'')], [])"
  by (simp add: optimizedMergeAttrs_def mergeOps_def input_element_def getAttribute_def
      hasAttribute_def setAttribute_def)

theorem merge_second_call_witness:
  "distinct (map fst (attributes (div_element 1 [(''class'', ''b''), (''id'', ''s'')])))
   \<and> mergeOps example_constants (div_element 0 [(''class'', ''a''), (''title'', ''t'')])
        (div_element 1 [(''class'', ''b''), (''id'', ''s'')]) \<lparr>exclude = [], isIgnored = False\<rparr>
       = ([(''class'', ''b''), (''id'', ''s'')], [''title''])
   \<and> mergeOps example_constants
        (optimizedMergeAttrs example_constants (div_element 0 [(''class'', ''a''), (''title'', ''t'')])
           (div_element 1 [(''class'', ''b''), (''id'', ''s'')]) \<lparr>exclude = [], isIgnored = False\<rparr>)
        (div_element 1 [(''class'', ''b''), (''id'', ''s'')]) \<lparr>exclude = [], isIgnored = False\<rparr>
       = ([], [])
   \<and> distinct (map fst (attributes (input_element 1 [(''value'', ''B'')] ''p'')))
   \<and> attributes (optimizedMergeAttrs example_constants (input_element 0 [(''value'', ''A'')] ''p'')
        (input_element 1 [(''value'', ''B'')] ''p'') \<lparr>exclude = [''value''], isIgnored = False\<rparr>)
       = [(''value'', ''B'')]
   \<and> mergeOps example_constants (input_element 0 [(''value'', ''B'')] ''p'')
        (input_element 1 [(''value'', ''B'')] ''p'') \<lparr>exclude = [''value''], isIgnored = False\<rparr>
       = ([(''value'', ''B'')], [])
   \<and> optimizedMergeAttrs example_constants (input_element 0 [(''value'', ''B'')] ''p'')
        (input_element 1 [(''value'', ''B'')] ''p'') \<lparr>exclude = [''value''], isIgnored = False\<rparr>
       = input_element 0 [(''value'', ''B'')] ''p''"
  using
    merge_second_call [of "div_element 1 [(''class'', ''b''), (''id'', ''s'')]"
      "optimizedMergeAttrs example_constants (div_element 0 [(''class'', ''a''), (''title'', ''t'')])
           (div_element 1 [(''class'', ''b''), (''id'', ''s'')]) \<lparr>exclude = [], isIgnored = False\<rparr>"
      example_constants "div_element 0 [(''class'', ''a''), (''title'', ''t'')]"
      "\<lparr>exclude = [], isIgnored = False\<rparr>"]
    merge_second_call [of "input_element 1 [(''value'', ''B'')] ''p''"
      "input_element 0 [(''value'', ''B'')] ''p''"
      example_constants "input_element 0 [(''value'', ''A'')] ''p''"
      "\<lparr>exclude = [''value''], isIgnored = False\<rparr>"]
  by (simp add: div_element_def input_element_def mergeOps_def getAttribute_def hasAttribute_def
      optimizedMergeAttrs_def setAttribute_def)

section \<open>Properties of the query cache\<close>

lemma fold_sweep_step:
  "fold (\<lambda>(key, entry) m. if now - timestamp entry > CACHE_TTL then AList.delete key m else m) xs m
     = filter (\<lambda>p. \<not> (\<exists>e. (fst p, e) \<in> set xs \<and> now - timestamp e > CACHE_TTL)) m"
proof (induction xs arbitrary: m)
  case Nil
  show ?case by simp
next
  case (Cons x xs)
  obtain k e where x: "x = (k, e)" by (cases x)
  show ?case
  proof (cases "now - timestamp e > CACHE_TTL")
    case True
    then show ?thesis
      unfolding x fold_Cons comp_apply prod.case Cons.IH
      by (simp add: AList.delete_eq) (rule filter_cong, auto)
  next
    case False
    then show ?thesis
      unfolding x fold_Cons comp_apply prod.case Cons.IH
      by simp (rule filter_cong, auto)
  qed
qed

lemma sweep_filter:
  assumes "distinct (map fst queryCache)"
  shows "sweep now queryCache
     = filter (\<lambda>(key, entry). \<not> (now - timestamp entry > CACHE_TTL)) queryCache"
  unfolding sweep_def fold_sweep_step
proof (rule filter_cong [OF refl])
  fix p assume p: "p \<in> set queryCache"
  obtain k e where ke: "p = (k, e)" by (cases p)
  from p ke have mem: "(k, e) \<in> set queryCache" by simp
  have uniq: "e' = e" if "(k, e') \<in> set queryCache" for e'
    by (rule eq_key_imp_eq_value [OF assms that mem])
  have "(\<exists>e'. (k, e') \<in> set queryCache \<and> now - timestamp e' > CACHE_TTL)
      \<longleftrightarrow> now - timestamp e > CACHE_TTL"
  proof
    assume "\<exists>e'. (k, e') \<in> set queryCache \<and> now - timestamp e' > CACHE_TTL"
    then obtain e' where e': "(k, e') \<in> set queryCache" "now - timestamp e' > CACHE_TTL"
      by blast
    from uniq [OF e'(1)] e'(2) show "now - timestamp e > CACHE_TTL" by simp
  next
    assume "now - timestamp e > CACHE_TTL"
    with mem show "\<exists>e'. (k, e') \<in> set queryCache \<and> now - timestamp e' > CACHE_TTL"
      by blast
  qed
  then show "(\<not> (\<exists>e. (fst p, e) \<in> set queryCache \<and> now - timestamp e > CACHE_TTL))
      = (case p of (key, entry) \<Rightarrow> \<not> (now - timestamp entry > CACHE_TTL))"
    unfolding ke fst_conv prod.case by (rule arg_cong)
qed

lemma sweep_none_expired:
  "list_all (\<lambda>(key, entry). \<not> (now - timestamp entry > CACHE_TTL)) queryCache \<Longrightarrow>
   sweep now queryCache = queryCache"
  unfolding sweep_def fold_sweep_step by (force simp: list_all_iff filter_id_conv)

lemma update_fresh_key:
  "k \<notin> fst ` set xs \<Longrightarrow> AList.update k v xs = xs @ [(k, v)]"
  by (induction xs) auto


lemma performQuery_stores:
  assumes "distinct (map fst queryCache)"
    and "querySelectorAll node query = Inr array"
    and "at_sweep now - at_store now \<le> CACHE_TTL"
  shows "\<exists>cache'. performQuery querySelectorAll now queryCache node query callback
            = Inr (deliver callback array, cache')
     \<and> map_of cache' (cacheKey node query) = Some \<lparr>results = array, timestamp = at_store now\<rparr>"
proof -
  define cache1 where "cache1 = AList.update (cacheKey node query)
      \<lparr>results = array, timestamp = at_store now\<rparr> queryCache"
  have d1: "distinct (map fst cache1)"
    using assms(1) by (simp add: cache1_def distinct_update)
  have m1: "map_of cache1 (cacheKey node query) = Some \<lparr>results = array, timestamp = at_store now\<rparr>"
    by (simp add: cache1_def update_conv')
  have "map_of (sweep (at_sweep now) cache1) (cacheKey node query)
      = Some \<lparr>results = array, timestamp = at_store now\<rparr>"
    unfolding sweep_filter [OF d1] map_of_filter_distinct [OF d1] m1 using assms(3) by simp
  with m1 show ?thesis
    using assms(2) by (simp add: performQuery_def Let_def cache1_def [symmetric])
qed

text \<open>The keys of the table stay unique, as in a \<^verbatim>\<open>Map\<close>.\<close>

lemma performQuery_keys_unique:
  assumes "distinct (map fst queryCache)"
    and "performQuery querySelectorAll now queryCache node query callback = Inr (r, cache')"
  shows "distinct (map fst cache')"
proof -
  from assms(2) obtain array where
    c: "cache' = (let cache1 = AList.update (cacheKey node query)
                          \<lparr>results = array, timestamp = at_store now\<rparr> queryCache
                  in if length cache1 > 100 then sweep (at_sweep now) cache1 else cache1)"
    by (auto simp: performQuery_def Let_def split: sum.splits)
  have d1: "distinct (map fst (AList.update (cacheKey node query)
                          \<lparr>results = array, timestamp = at_store now\<rparr> queryCache))"
    using assms(1) by (rule distinct_update)
  show ?thesis
    unfolding c Let_def using d1 by (simp add: sweep_filter [OF d1] distinct_map_filter)
qed

lemma optimizedDOMAll_keys_unique:
  assumes "distinct (map fst queryCache)"
    and "optimizedDOMAll querySelectorAll now queryCache node query callback = Inr (r, cache')"
  shows "distinct (map fst cache')"
  using assms performQuery_keys_unique [OF assms(1)]
  by (auto simp: optimizedDOMAll_def split: option.splits if_splits)

text \<open>
  C4. For a scope node and a query whose key has an entry in the cache: when the age of
  the entry at the check, \<open>at_check now - timestamp entry\<close>, is less than 100 the call
  delivers the entry's own result sequence and leaves the cache as it is, whatever
  \<^verbatim>\<open>querySelectorAll\<close> would do (the live tree is not queried); when the age is 100 or
  more the stored entry is not delivered: the query is run on the live tree, its error
  is raised if it fails, and otherwise its result is delivered and is in the cache
  afterwards under the same key with the timestamp of the store. The last part takes the
  sweep's reading of the clock to be at most the TTL after the store's reading two
  statements earlier, so that the sweep does not delete the entry just stored. With a
  callback, \<open>deliver\<close> is the \<^verbatim>\<open>forEach\<close> over the same sequence.
\<close>

theorem cache_ttl:
  assumes "distinct (map fst queryCache)"
    and "map_of queryCache (cacheKey node query) = Some entry"
  shows "(at_check now - timestamp entry < 100 \<longrightarrow>
            optimizedDOMAll querySelectorAll now queryCache (Some node) query callback
              = Inr (deliver callback (results entry), queryCache))
     \<and> (at_check now - timestamp entry \<ge> 100 \<longrightarrow>
          (\<forall>e. querySelectorAll node query = Inl e \<longrightarrow>
             optimizedDOMAll querySelectorAll now queryCache (Some node) query callback = Inl e)
        \<and> (\<forall>array. querySelectorAll node query = Inr array \<longrightarrow>
             at_sweep now - at_store now \<le> 100 \<longrightarrow>
             (\<exists>cache'. optimizedDOMAll querySelectorAll now queryCache (Some node) query callback
                         = Inr (deliver callback array, cache')
                \<and> map_of cache' (cacheKey node query)
                    = Some \<lparr>results = array, timestamp = at_store now\<rparr>)))"
proof (intro conjI impI allI)
  assume "at_check now - timestamp entry < 100"
  then show "optimizedDOMAll querySelectorAll now queryCache (Some node) query callback
      = Inr (deliver callback (results entry), queryCache)"
    using assms(2) by (simp add: optimizedDOMAll_def CACHE_TTL_def)
next
  fix e assume "at_check now - timestamp entry \<ge> 100" "querySelectorAll node query = Inl e"
  then show "optimizedDOMAll querySelectorAll now queryCache (Some node) query callback = Inl e"
    using assms(2) by (simp add: optimizedDOMAll_def CACHE_TTL_def performQuery_def)
next
  fix array
  assume old: "at_check now - timestamp entry \<ge> 100"
    and q: "querySelectorAll node query = Inr array"
    and clk: "at_sweep now - at_store now \<le> 100"
  from old assms(2)
  have "optimizedDOMAll querySelectorAll now queryCache (Some node) query callback
      = performQuery querySelectorAll now queryCache node query callback"
    by (simp add: optimizedDOMAll_def CACHE_TTL_def)
  with performQuery_stores [where querySelectorAll = querySelectorAll and node = node
      and query = query and now = now and callback = callback, OF assms(1) q] clk
  show "\<exists>cache'. optimizedDOMAll querySelectorAll now queryCache (Some node) query callback
                         = Inr (deliver callback array, cache')
                \<and> map_of cache' (cacheKey node query)
                    = Some \<lparr>results = array, timestamp = at_store now\<rparr>"
    by (simp add: CACHE_TTL_def)
qed

theorem cache_ttl_witness:
  "distinct (map fst [(''c1:.item'', \<lparr>results = [1, 2 :: nat], timestamp = 0\<rparr>)])
   \<and> map_of [(''c1:.item'', \<lparr>results = [1, 2 :: nat], timestamp = 0\<rparr>)]
        (cacheKey (Element (div_element 0 [(''id'', ''c1'')])) ''.item'')
       = Some \<lparr>results = [1, 2], timestamp = 0\<rparr>
   \<and> optimizedDOMAll (\<lambda>n q. Inr [7, 8]) \<lparr>at_check = 99, at_store = 99, at_sweep = 99\<rparr>
        [(''c1:.item'', \<lparr>results = [1, 2 :: nat], timestamp = 0\<rparr>)]
        (Some (Element (div_element 0 [(''id'', ''c1'')]))) ''.item'' False
       = Inr (Returned [1, 2], [(''c1:.item'', \<lparr>results = [1, 2], timestamp = 0\<rparr>)])
   \<and> optimizedDOMAll (\<lambda>n q. Inr [7, 8]) \<lparr>at_check = 100, at_store = 101, at_sweep = 101\<rparr>
        [(''c1:.item'', \<lparr>results = [1, 2 :: nat], timestamp = 0\<rparr>)]
        (Some (Element (div_element 0 [(''id'', ''c1'')]))) ''.item'' False
       = Inr (Returned [7, 8], [(''c1:.item'', \<lparr>results = [7, 8], timestamp = 101\<rparr>)])"
  using
    cache_ttl [of "[(''c1:.item'', \<lparr>results = [1, 2 :: nat], timestamp = 0\<rparr>)]"
      "Element (div_element (0::nat) [(''id'', ''c1'')])" "''.item''"
      "\<lparr>results = [1, 2], timestamp = 0\<rparr>"
      "\<lparr>at_check = 99, at_store = 99, at_sweep = 99\<rparr>" "\<lambda>n q. Inr [7, 8]" False]
    cache_ttl [of "[(''c1:.item'', \<lparr>results = [1, 2 :: nat], timestamp = 0\<rparr>)]"
      "Element (div_element (0::nat) [(''id'', ''c1'')])" "''.item''"
      "\<lparr>results = [1, 2], timestamp = 0\<rparr>"
      "\<lparr>at_check = 100, at_store = 101, at_sweep = 101\<rparr>" "\<lambda>n q. Inr [7, 8]" False]
  by (simp add: cacheKey_def js_or_def div_element_def reflected_def getAttribute_def
      deliver_def optimizedDOMAll_def performQuery_def CACHE_TTL_def)

lemma cacheKey_example_scope:
  "cacheKey (example_scope i) q = replicate (Suc i) CHR ''a'' @ '':'' @ q"
  by (simp add: cacheKey_def example_scope_def div_element_def reflected_def getAttribute_def
      js_or_def)

lemma full_cache_facts:
  "length full_cache = 100"
  "''b:.item'' \<notin> fst ` set full_cache"
  "list_all (\<lambda>(key, entry). \<not> (100 - timestamp entry > CACHE_TTL)) full_cache"
  "full_cache ! 0 = (''a:.item'', \<lparr>results = [], timestamp = 0\<rparr>)"
  by (auto simp: full_cache_def cacheKey_example_scope list_all_iff CACHE_TTL_def)

text \<open>
  C8. The sweep deletes the entries whose age is greater than the TTL, and a read
  treats an entry as expired from the age TTL on: an entry whose age is exactly the TTL
  is expired for reads and survives the sweep. Here the cache holds a hundred entries stored at the times 0 to 99
  and a lookup of a new key is made at time 100: the insertion makes the size 101, the
  sweep runs at time 100, and the entry stored at time 0, of age exactly 100, stays in
  the table, which keeps its 101 entries.
\<close>

theorem sweep_keeps_entry_at_ttl:
  "optimizedDOMAll (\<lambda>n q. Inr []) \<lparr>at_check = 100, at_store = 100, at_sweep = 100\<rparr> full_cache
      (Some (Element (div_element 100 [(''id'', ''b'')]))) ''.item'' False
     = Inr (Returned [], full_cache @ [(''b:.item'', \<lparr>results = [], timestamp = 100\<rparr>)])
   \<and> length (full_cache @ [(''b:.item'', \<lparr>results = [], timestamp = 100\<rparr>)]) = 101
   \<and> (full_cache @ [(''b:.item'', \<lparr>results = [], timestamp = 100\<rparr>)]) ! 0
       = (''a:.item'', \<lparr>results = [], timestamp = 0\<rparr>)
   \<and> 100 - timestamp \<lparr>results = [], timestamp = 0\<rparr> = CACHE_TTL"
proof -
  let ?new = "(''b:.item'', \<lparr>results = [] :: nat list, timestamp = 100\<rparr>)"
  have key: "cacheKey (Element (div_element 100 [(''id'', ''b'')])) ''.item'' = ''b:.item''"
    by (simp add: cacheKey_def div_element_def reflected_def getAttribute_def js_or_def)
  have miss: "map_of full_cache ''b:.item'' = None"
    using full_cache_facts(2) by (simp add: map_of_eq_None_iff)
  have upd: "AList.update ''b:.item'' \<lparr>results = [], timestamp = 100\<rparr> full_cache = full_cache @ [?new]"
    using full_cache_facts(2) by (rule update_fresh_key)
  have "list_all (\<lambda>(key, entry). \<not> (100 - timestamp entry > CACHE_TTL)) (full_cache @ [?new])"
    using full_cache_facts(3) by (simp add: CACHE_TTL_def)
  then have sw: "sweep 100 (full_cache @ [?new]) = full_cache @ [?new]"
    by (rule sweep_none_expired)
  have "optimizedDOMAll (\<lambda>n q. Inr []) \<lparr>at_check = 100, at_store = 100, at_sweep = 100\<rparr> full_cache
      (Some (Element (div_element 100 [(''id'', ''b'')]))) ''.item'' False
     = Inr (Returned [], full_cache @ [?new])"
    by (simp add: optimizedDOMAll_def performQuery_def key miss upd sw full_cache_facts(1)
        deliver_def Let_def)
  moreover have "(full_cache @ [?new]) ! 0 = (''a:.item'', \<lparr>results = [], timestamp = 0\<rparr>)"
    using full_cache_facts(1,4) by (simp add: nth_append)
  ultimately show ?thesis by (simp add: full_cache_facts(1) CACHE_TTL_def)
qed

section \<open>Properties of getNodeKey\<close>

text \<open>
  C6 (as amended). In join mode, for a node whose \<^verbatim>\<open>destroyed\<close> flag in the private
  store is not truthy, \<^verbatim>\<open>getNodeKey\<close> returns \<^verbatim>\<open>node.id\<close> and nothing else: on an
  element with an \<^verbatim>\<open>id\<close> attribute exactly the attribute's value, with no fallback to
  \<^verbatim>\<open>phx-magic-id\<close>; on an element without the attribute the empty string, and on a node
  that is not an element \<^verbatim>\<open>undefined\<close>. Both are falsy keys, read as "no key", but
  neither is \<^verbatim>\<open>null\<close>, the value that line 209 returns for a destroyed node. The
  counterexample is an element without an \<^verbatim>\<open>id\<close> attribute, for which the key is the
  empty string.
\<close>

theorem getNodeKey_join:
  assumes "isJoinPatch"
    and "\<not> truthy (optimizedGetPrivate store node ''destroyed'')"
  shows "getNodeKey store isJoinPatch node = node_id node
     \<and> (\<forall>e v. node = Element e \<longrightarrow> getAttribute e ''id'' = Some v \<longrightarrow>
            getNodeKey store isJoinPatch node = JStr v)
     \<and> (\<forall>e. node = Element e \<longrightarrow> getAttribute e ''id'' = None \<longrightarrow>
            getNodeKey store isJoinPatch node = JStr [] \<and> \<not> truthy (getNodeKey store isJoinPatch node))
     \<and> (\<forall>r. node = OtherNode r \<longrightarrow>
            getNodeKey store isJoinPatch node = JUndefined \<and> \<not> truthy (getNodeKey store isJoinPatch node))"
proof -
  have "\<not> truthy (isPhxDestroyed store node)"
    using assms(2) by (simp add: isPhxDestroyed_def js_and_def)
  then have "getNodeKey store isJoinPatch node = node_id node"
    using assms(1) by (simp add: getNodeKey_def)
  then show ?thesis by (auto simp: reflected_def)
qed

theorem getNodeKey_join_witness:
  "\<not> truthy (optimizedGetPrivate (\<lambda>_. None) (Element (div_element 0 [(''id'', ''item-1'')])) ''destroyed'')
   \<and> getNodeKey (\<lambda>_. None) True (Element (div_element 0 [(''id'', ''item-1'')])) = JStr ''item-1''
   \<and> getNodeKey (\<lambda>_. None) True (Element (div_element 1 [(''phx-magic-id'', ''m1'')])) = JStr []
   \<and> getNodeKey (\<lambda>_. None) False (Element (div_element 1 [(''phx-magic-id'', ''m1'')])) = JStr ''m1''"
  using
    getNodeKey_join [of True "\<lambda>_. None" "Element (div_element (0::nat) [(''id'', ''item-1'')])"]
    getNodeKey_join [of True "\<lambda>_. None" "Element (div_element (1::nat) [(''phx-magic-id'', ''m1'')])"]
  by (simp add: optimizedGetPrivate_def div_element_def getAttribute_def getNodeKey_def
      isPhxDestroyed_def js_and_def js_or_def reflected_def)

theorem getNodeKey_join_counterexample:
  "\<not> truthy (optimizedGetPrivate (\<lambda>_. None) (Element (div_element 0 [(''class'', ''item'')])) ''destroyed'')
   \<and> getAttribute (div_element 0 [(''class'', ''item'')]) ''id'' = None
   \<and> getNodeKey (\<lambda>_. None) True (Element (div_element 0 [(''class'', ''item'')])) = JStr []
   \<and> getNodeKey (\<lambda>_. None) True (Element (div_element 0 [(''class'', ''item'')])) \<noteq> JNull"
  by (simp add: optimizedGetPrivate_def div_element_def getAttribute_def getNodeKey_def
      isPhxDestroyed_def js_and_def reflected_def)

end
